theory Spec2Isabelle
  imports Complex_Main "HOL-Library.Sublist"
begin

section \<open>Strings\<close>

text \<open>
  A Python \<open>str\<close> is a sequence of Unicode code points. A code point is a natural
  number, a string is a list of them; \<open>str\<close> embeds an ASCII literal.
\<close>

type_synonym cp = nat
type_synonym ustr = "cp list"

definition str :: "string \<Rightarrow> ustr" where
  "str s = map of_char s"

definition ascii_lower :: "cp \<Rightarrow> cp" where
  "ascii_lower c = (if 65 \<le> c \<and> c \<le> 90 then c + 32 else c)"

text \<open>
  The class \<open>\s\<close> of \<open>re\<close> on a \<open>str\<close> pattern, which is also what
  \<open>str.strip()\<close> removes and what \<open>str.isspace()\<close> accepts: U+0009..U+000D,
  U+001C..U+0020, U+0085, U+00A0, U+1680, U+2000..U+200A, U+2028, U+2029, U+202F, U+205F
  and U+3000.
\<close>

definition is_space :: "cp \<Rightarrow> bool" where
  "is_space c = ((9 \<le> c \<and> c \<le> 13) \<or> (28 \<le> c \<and> c \<le> 32) \<or> c = 133 \<or> c = 160
     \<or> c = 5760 \<or> (8192 \<le> c \<and> c \<le> 8202) \<or> c = 8232 \<or> c = 8233 \<or> c = 8239
     \<or> c = 8287 \<or> c = 12288)"

definition strip :: "ustr \<Rightarrow> ustr" where
  "strip s = rev (dropWhile is_space (rev (dropWhile is_space s)))"

text \<open>\<open>[0-9]\<close>, \<open>[0-9,]\<close> and \<open>[a-z]\<close>: the ASCII ranges the patterns spell out.\<close>

definition is_09 :: "cp \<Rightarrow> bool" where
  "is_09 c = (48 \<le> c \<and> c \<le> 57)"

definition is_09_comma :: "cp \<Rightarrow> bool" where
  "is_09_comma c = (is_09 c \<or> c = 44)"

definition is_az :: "cp \<Rightarrow> bool" where
  "is_az c = (97 \<le> c \<and> c \<le> 122)"

section \<open>Regular expressions as \<open>re\<close> runs them\<close>

text \<open>
  The fragment of Python's \<open>re\<close> that the parser's patterns use. Every repetition
  in the source (\<open>*\<close>, \<open>+\<close>, \<open>+?\<close>, \<open>{m}\<close>, \<open>{m,n}\<close>) stands on a single
  character class, so \<open>Rep cls lo hi greedy\<close> repeats a class between \<open>lo\<close> and
  \<open>hi\<close> times (\<open>None\<close>: unbounded). \<open>Alt r Eps\<close> is the optional group \<open>(?:r)?\<close>.
  \<open>Eos\<close> is \<open>$\<close> and \<open>WordB w\<close> is \<open>\b\<close> for the word characters \<open>w\<close>.
\<close>

datatype rx =
    Eps
  | Cls "cp \<Rightarrow> bool"
  | Seq rx rx
  | Alt rx rx
  | Rep "cp \<Rightarrow> bool" nat "nat option" bool
  | Grp nat rx
  | Eos
  | WordB "cp \<Rightarrow> bool"

text \<open>A state of the matcher: the position in the subject and the groups captured so far.\<close>

type_synonym groups = "(nat \<times> nat \<times> nat) list"
type_synonym mstate = "nat \<times> groups"

text \<open>
  \<open>rmatch r s st\<close> lists every way \<open>r\<close> can match \<open>s\<close> from the state \<open>st\<close>, in
  the order in which the backtracking matcher of \<open>re\<close> tries them: the left branch of
  an alternative first, the longest repetition first when greedy and the shortest first
  when lazy. The match that \<open>re\<close> reports is the head of the list.
\<close>

fun rmatch :: "rx \<Rightarrow> ustr \<Rightarrow> mstate \<Rightarrow> mstate list" where
  "rmatch Eps s st = [st]"
| "rmatch (Cls p) s (i, g) = (if i < length s \<and> p (s ! i) then [(Suc i, g)] else [])"
| "rmatch (Seq a b) s st = concat (map (\<lambda>st'. rmatch b s st') (rmatch a s st))"
| "rmatch (Alt a b) s st = rmatch a s st @ rmatch b s st"
| "rmatch (Rep p lo hi greedy) s (i, g) =
     (let n = length (takeWhile p (drop i s));
          m = (case hi of None \<Rightarrow> n | Some h \<Rightarrow> min h n);
          ks = [lo..<Suc m]
      in map (\<lambda>k. (i + k, g)) (if greedy then rev ks else ks))"
| "rmatch (Grp n a) s (i, g) = map (\<lambda>(j, g'). (j, (n, i, j) # g')) (rmatch a s (i, g))"
| "rmatch Eos s (i, g) =
     (if i = length s \<or> (Suc i = length s \<and> s ! i = 10) then [(i, g)] else [])"
| "rmatch (WordB w) s (i, g) =
     (if (0 < i \<and> w (s ! (i - 1))) \<noteq> (i < length s \<and> w (s ! i)) then [(i, g)] else [])"

text \<open>
  The first match that starts at position \<open>i\<close>. \<open>must_advance\<close> is the flag \<open>re.sub\<close>
  sets after an empty match: at that position an empty match is passed over.
\<close>

definition match_at :: "rx \<Rightarrow> ustr \<Rightarrow> nat \<Rightarrow> bool \<Rightarrow> mstate option" where
  "match_at r s i must_advance =
     List.find (\<lambda>(e, g). \<not> must_advance \<or> e \<noteq> i) (rmatch r s (i, []))"

text \<open>
  \<open>re.search\<close>: the start positions are tried from left to right, the end of the string
  included; the result is the start, the end and the groups of the first match.
\<close>

fun first_match :: "rx \<Rightarrow> ustr \<Rightarrow> bool \<Rightarrow> nat list \<Rightarrow> (nat \<times> mstate) option" where
  "first_match r s adv [] = None"
| "first_match r s adv (i # is) =
     (case match_at r s i adv of
        Some m \<Rightarrow> Some (i, m)
      | None \<Rightarrow> first_match r s False is)"

definition search_from :: "rx \<Rightarrow> ustr \<Rightarrow> nat \<Rightarrow> bool \<Rightarrow> (nat \<times> mstate) option" where
  "search_from r s pos adv = first_match r s adv [pos..<Suc (length s)]"

definition search :: "rx \<Rightarrow> ustr \<Rightarrow> (nat \<times> mstate) option" where
  "search r s = search_from r s 0 False"

text \<open>\<open>match.group(n)\<close> and \<open>match.group(0)\<close>.\<close>

definition slice :: "ustr \<Rightarrow> nat \<Rightarrow> nat \<Rightarrow> ustr" where
  "slice s b e = take (e - b) (drop b s)"

definition group :: "ustr \<Rightarrow> nat \<times> mstate \<Rightarrow> nat \<Rightarrow> ustr option" where
  "group s m n = (case m of (b, e, g) \<Rightarrow>
     if n = 0 then Some (slice s b e)
     else (case map_of g n of None \<Rightarrow> None | Some (gb, ge) \<Rightarrow> Some (slice s gb ge)))"

text \<open>Pattern notation: a literal, a literal character, a choice of patterns.\<close>

definition chr :: "char \<Rightarrow> rx" where
  "chr c = Cls (\<lambda>x. x = of_char c)"

definition lit :: "string \<Rightarrow> rx" where
  "lit w = foldr (\<lambda>c r. Seq (chr c) r) w Eps"

fun alts :: "rx list \<Rightarrow> rx" where
  "alts [] = Eps"
| "alts [r] = r"
| "alts (r # rs) = Alt r (alts rs)"

definition opt :: "rx \<Rightarrow> rx" where
  "opt r = Alt r Eps"

text \<open>A pattern written as the sequence of its parts.\<close>

definition seqs :: "rx list \<Rightarrow> rx" where
  "seqs rs = foldr Seq rs Eps"

subsection \<open>\<open>re.sub\<close>\<close>

lemma rmatch_bounds:
  "(e, g') \<in> set (rmatch r s (i, g)) \<Longrightarrow> i \<le> length s \<Longrightarrow> i \<le> e \<and> e \<le> length s"
proof (induction r arbitrary: i g e g')
  case (Seq a b)
  from Seq.prems(1) obtain j h where
    1: "(j, h) \<in> set (rmatch a s (i, g))" and 2: "(e, g') \<in> set (rmatch b s (j, h))"
    by auto
  from Seq.IH(1)[OF 1 Seq.prems(2)] have "i \<le> j" "j \<le> length s" by simp_all
  with Seq.IH(2)[OF 2] show ?case by simp
next
  case (Rep p lo hi greedy)
  let ?n = "length (takeWhile p (drop i s))"
  have "?n \<le> length s - i"
    using length_takeWhile_le[of p "drop i s"] by simp
  with Rep show ?case
    by (auto simp: Let_def split: option.splits if_splits)
next
  case (Alt a b)
  then show ?case by auto
next
  case (Grp n a)
  then show ?case by auto
qed (simp_all split: if_splits)

lemma match_at_Some:
  assumes "match_at r s i adv = Some (e, g)"
  shows "(e, g) \<in> set (rmatch r s (i, []))" and "adv \<Longrightarrow> e \<noteq> i"
proof -
  from assms obtain k where k: "k < length (rmatch r s (i, []))"
    "rmatch r s (i, []) ! k = (e, g)" "\<not> adv \<or> e \<noteq> i"
    by (auto simp: match_at_def find_Some_iff)
  from k(1,2) show "(e, g) \<in> set (rmatch r s (i, []))"
    using nth_mem by fastforce
  from k(3) show "adv \<Longrightarrow> e \<noteq> i" by simp
qed

lemma first_match_bounds:
  "first_match r s adv is = Some (b, e, g) \<Longrightarrow> \<forall>i \<in> set is. pos \<le> i \<and> i \<le> length s \<Longrightarrow>
     pos \<le> b \<and> b \<le> e \<and> e \<le> length s"
proof (induction "is" arbitrary: adv)
  case Nil
  then show ?case by simp
next
  case (Cons i "is")
  show ?case
  proof (cases "match_at r s i adv")
    case None
    with Cons show ?thesis by simp
  next
    case (Some m)
    with Cons.prems(1) have m: "m = (e, g)" "b = i" by simp_all
    from Some m have "(e, g) \<in> set (rmatch r s (i, []))"
      by (simp add: match_at_Some(1))
    with rmatch_bounds[of e g r s i "[]"] Cons.prems(2) m show ?thesis by simp
  qed
qed

lemma upt_range: "\<forall>i \<in> set [pos..<Suc n]. pos \<le> i \<and> i \<le> n"
  by (simp del: upt_Suc add: less_Suc_eq_le)

lemma search_from_bounds:
  assumes "search_from r s pos adv = Some (b, e, g)"
  shows "pos \<le> b \<and> b \<le> e \<and> e \<le> length s"
proof -
  from assms have fm: "first_match r s adv [pos..<Suc (length s)] = Some (b, e, g)"
    unfolding search_from_def .
  from first_match_bounds[OF fm upt_range] show ?thesis .
qed

lemma search_from_advances:
  assumes "search_from r s pos True = Some (b, e, g)"
  shows "pos < e"
proof -
  have le: "pos \<le> b" "b \<le> e" "e \<le> length s"
    using search_from_bounds[OF assms] by simp_all
  then have "[pos..<Suc (length s)] = pos # [Suc pos..<Suc (length s)]"
    by (simp add: upt_conv_Cons)
  with assms have fm:
    "first_match r s True (pos # [Suc pos..<Suc (length s)]) = Some (b, e, g)"
    by (simp add: search_from_def)
  show ?thesis
  proof (cases "match_at r s pos True")
    case None
    with fm have 1: "first_match r s False [Suc pos..<Suc (length s)] = Some (b, e, g)"
      by simp
    from first_match_bounds[OF 1 upt_range] show ?thesis by simp
  next
    case (Some m)
    with fm have "m = (e, g)" "b = pos" by simp_all
    with Some match_at_Some(2)[of r s pos True e g] have "e \<noteq> pos" by simp
    with le \<open>b = pos\<close> show ?thesis by simp
  qed
qed

text \<open>
  \<open>re.sub(pattern, repl, s)\<close> for a replacement without group references. The loop of
  \<open>re\<close>: copy the text from the end of the last match to the match, write the
  replacement, and search again from the end of the match, with \<open>must_advance\<close> set
  when the match was empty; when the search fails, copy the rest.
\<close>

function re_sub_loop :: "rx \<Rightarrow> ustr \<Rightarrow> ustr \<Rightarrow> nat \<Rightarrow> (nat \<times> mstate) option \<Rightarrow> ustr" where
  "re_sub_loop r repl s pos None = drop pos s"
| "re_sub_loop r repl s pos (Some (b, e, g)) =
     slice s pos b @ repl @ re_sub_loop r repl s e (search_from r s e (e = b))"
  by pat_completeness auto
termination
proof (relation "measure (\<lambda>(r, repl, s, pos, m).
    case m of None \<Rightarrow> 0 | Some (b, e, g) \<Rightarrow> 2 * (length s - e) + (if e = b then 1 else 2))",
    goal_cases)
  case 1
  show ?case by simp
next
  case (2 r repl s pos b e g)
  define old where "old = 2 * (length s - e) + (if e = b then 1 else (2::nat))"
  have old_pos: "0 < old" by (simp add: old_def)
  show ?case
  proof (cases "search_from r s e (e = b)")
    case None
    with old_pos show ?thesis by (simp add: old_def)
  next
    case (Some m)
    obtain b' e' g' where m: "m = (b', e', g')" by (cases m) auto
    have sf: "search_from r s e (e = b) = Some (b', e', g')"
      using Some m by simp
    from search_from_bounds[OF sf]
    have le: "e \<le> b'" "b' \<le> e'" "e' \<le> length s" by simp_all
    have key: "2 * (length s - e') + (if e' = b' then 1 else 2) < old"
    proof (cases "e = b")
      case True
      with sf have "search_from r s e True = Some (b', e', g')" by simp
      from search_from_advances[OF this] have "e < e'" .
      with le have "2 * (length s - e') + 2 \<le> 2 * (length s - e)" by arith
      moreover have "old = 2 * (length s - e) + 1" using True by (simp add: old_def)
      moreover have "(if e' = b' then 1 else (2::nat)) \<le> 2" by simp
      ultimately show ?thesis by arith
    next
      case False
      then have o: "old = 2 * (length s - e) + 2" by (simp add: old_def)
      show ?thesis
      proof (cases "e' = e")
        case True
        with le have "e' = b'" by arith
        with True o show ?thesis by simp
      next
        case False
        with le have "2 * (length s - e') + 2 \<le> 2 * (length s - e)" by arith
        moreover have "(if e' = b' then 1 else (2::nat)) \<le> 2" by simp
        ultimately show ?thesis using o by arith
      qed
    qed
    show ?thesis
      unfolding sf using key by (simp add: old_def)
  qed
qed

definition re_sub :: "rx \<Rightarrow> ustr \<Rightarrow> ustr \<Rightarrow> ustr" where
  "re_sub r repl s = re_sub_loop r repl s 0 (search_from r s 0 False)"

section \<open>What the parser takes from the Python runtime\<close>

text \<open>
  The parser leans on tables and services of the runtime that are not part of the
  repository: the Unicode tables behind \<open>str.lower()\<close>, \<open>\d\<close>, \<open>\w\<close> and
  \<open>re.IGNORECASE\<close>, the order in which \<open>list(...)\<close> and \<open>for\<close> enumerate a
  \<open>set\<close> of strings (it follows the hash seed of the process), the clock and the
  \<open>datetime\<close> library. On ASCII their behaviour is fixed and written out below; the rest
  is a parameter \<open>U\<close> of every function, and the theorems hold for every runtime.
  \<^item> \<open>uni_lower U pre c post\<close>: the lower-casing of the non-ASCII code point \<open>c\<close>
    standing between \<open>pre\<close> and \<open>post\<close> (one code point may become several, and
    a capital sigma depends on its context);
  \<^item> \<open>uni_isdecimal\<close>, \<open>uni_isalnum\<close>: whether a non-ASCII code point is in \<open>\d\<close>,
    in \<open>\w\<close>;
  \<^item> \<open>uni_ignorecase U p c\<close>: whether the pattern character \<open>p\<close> matches the
    non-ASCII code point \<open>c\<close> under \<open>re.IGNORECASE\<close>;
  \<^item> \<open>list_expense\<close>, \<open>list_income\<close>: the keyword sets as the process enumerates them;
  \<^item> \<open>now\<close>: \<open>datetime.now()\<close>, read once per call of the parser;
    \<open>plus_days d n\<close>: \<open>d + timedelta(days=n)\<close>, for a clock more than a day away
    from the ends of the range of \<open>datetime\<close>; \<open>strptime\<close>, \<open>year\<close>,
    \<open>replace_year d y\<close> (\<open>d.replace(year=y)\<close>) and \<open>isoformat\<close>
    (\<open>d.date().isoformat()\<close>).
  A \<open>datetime\<close> is a value of the type \<open>'d\<close>.
\<close>

datatype 'd outcome = Returned 'd | ValueError | OtherError

record 'd runtime =
  uni_lower :: "ustr \<Rightarrow> cp \<Rightarrow> ustr \<Rightarrow> ustr"
  uni_isdecimal :: "cp \<Rightarrow> bool"
  uni_isalnum :: "cp \<Rightarrow> bool"
  uni_ignorecase :: "cp \<Rightarrow> cp \<Rightarrow> bool"
  list_expense :: "ustr list"
  list_income :: "ustr list"
  now :: 'd
  plus_days :: "'d \<Rightarrow> int \<Rightarrow> 'd"
  strptime :: "ustr \<Rightarrow> ustr \<Rightarrow> 'd outcome"
  year :: "'d \<Rightarrow> int"
  replace_year :: "'d \<Rightarrow> int \<Rightarrow> 'd outcome"
  isoformat :: "'d \<Rightarrow> ustr"

text \<open>\<open>str.lower()\<close>.\<close>

fun lower_from :: "'d runtime \<Rightarrow> ustr \<Rightarrow> ustr \<Rightarrow> ustr" where
  "lower_from U pre [] = []"
| "lower_from U pre (c # post) =
     (if c < 128 then [ascii_lower c] else uni_lower U pre c post)
       @ lower_from U (pre @ [c]) post"

definition str_lower :: "'d runtime \<Rightarrow> ustr \<Rightarrow> ustr" where
  "str_lower U s = lower_from U [] s"

text \<open>\<open>\d\<close>, \<open>\w\<close>, and a pattern character under \<open>re.IGNORECASE\<close>.\<close>

definition is_digit :: "'d runtime \<Rightarrow> cp \<Rightarrow> bool" where
  "is_digit U c = (if c < 128 then is_09 c else uni_isdecimal U c)"

definition is_word :: "'d runtime \<Rightarrow> cp \<Rightarrow> bool" where
  "is_word U c =
     (if c < 128 then is_09 c \<or> is_az (ascii_lower c) \<or> c = 95 else uni_isalnum U c)"

definition ci_eq :: "'d runtime \<Rightarrow> cp \<Rightarrow> cp \<Rightarrow> bool" where
  "ci_eq U p c = (if c < 128 then ascii_lower c = ascii_lower p else uni_ignorecase U p c)"

definition lit_ci :: "'d runtime \<Rightarrow> ustr \<Rightarrow> rx" where
  "lit_ci U w = foldr (\<lambda>p r. Seq (Cls (ci_eq U p)) r) w Eps"

text \<open>
  A method called on \<open>match.group(1)\<close> raises \<open>AttributeError\<close> when the group took
  no part in the match (\<open>group\<close> is \<open>None\<close> then). It is the one exception of the
  parser that no \<open>except\<close> clause of the source catches.
\<close>

datatype py_error = AttributeError

section \<open>The transaction parser\<close>

subsection \<open>Class constants\<close>

definition EXPENSE_KEYWORDS :: "ustr set" where
  "EXPENSE_KEYWORDS = set (map str
     [''spent'', ''paid'', ''bought'', ''purchased'', ''charged'', ''cost'',
      ''expense'', ''spent money on'', ''spent on'', ''paid for'', ''add expense'',
      ''debit'', ''charged'', ''out'', ''eating'', ''eat'', ''ate'', ''delivery''])"

definition INCOME_KEYWORDS :: "ustr set" where
  "INCOME_KEYWORDS = set (map str
     [''earned'', ''received'', ''got'', ''income'', ''salary'', ''bonus'',
      ''refund'', ''credited'', ''credit'', ''earning'', ''earn'', ''payment received'',
      ''transferred in'', ''deposit'', ''deposited'', ''added'', ''received money''])"

text \<open>A \<open>dict\<close> keeps the order of its literal.\<close>

definition DATE_KEYWORDS :: "(ustr \<times> int) list" where
  "DATE_KEYWORDS =
     [(str ''today'', 0), (str ''yesterday'', -1), (str ''tomorrow'', 1), (str ''now'', 0),
      (str ''today morning'', 0), (str ''last night'', -1)]"

subsection \<open>\<open>parse_amount\<close>\<close>

text \<open>
  \<open>[\<rupee>$\<euro>\<pounds>\<yen>]\<close>: U+20B9, U+0024, U+20AC, U+00A3, U+00A5; and the number
  \<open>[0-9,]+(?:\.[0-9]{2})?\<close> of the four patterns.
\<close>

definition is_currency :: "cp \<Rightarrow> bool" where
  "is_currency c = (c = 8377 \<or> c = 36 \<or> c = 8364 \<or> c = 163 \<or> c = 165)"

definition number :: rx where
  "number = Seq (Rep is_09_comma 1 None True)
                (opt (Seq (chr CHR ''.'') (Rep is_09 2 (Some 2) True)))"

definition amount_patterns :: "rx list" where
  "amount_patterns =
     [seqs [Cls is_currency, Rep is_space 0 None True, Grp 1 number],
      seqs [Grp 1 number, Rep is_space 0 None True,
            alts (map lit [''inr'', ''usd'', ''eur'', ''gbp'', ''jpy''])],
      seqs [alts (map lit [''amount'', ''of'', ''rupees'', ''dollars'', ''euros'']),
            Rep is_space 0 None True, opt (lit ''is''), Rep is_space 0 None True,
            opt (chr CHR '':''), Rep is_space 0 None True, Grp 1 number],
      Grp 1 number]"

text \<open>\<open>amount_str.replace(",", "")\<close>.\<close>

definition replace_commas :: "ustr \<Rightarrow> ustr" where
  "replace_commas s = filter (\<lambda>c. c \<noteq> 44) s"

text \<open>
  \<open>float(amount_str)\<close> on the strings the patterns can capture: ASCII digits with at
  most one dot. \<open>None\<close> is the \<open>ValueError\<close> (no digit at all). A Python \<open>float\<close>
  is modelled by the rational number the literal denotes; the rounding to a double is
  not modelled.
\<close>

definition digits_value :: "ustr \<Rightarrow> nat" where
  "digits_value ds = foldl (\<lambda>a c. 10 * a + (c - 48)) 0 ds"

definition py_float :: "ustr \<Rightarrow> rat option" where
  "py_float s =
     (let ip = takeWhile is_09 s; r = dropWhile is_09 s
      in if r = [] then (if ip = [] then None else Some (of_nat (digits_value ip)))
         else if hd r = 46 \<and> list_all is_09 (tl r) \<and> (ip \<noteq> [] \<or> tl r \<noteq> [])
           then Some (of_nat (digits_value ip)
                      + of_nat (digits_value (tl r)) / 10 ^ length (tl r))
         else None)"

fun amount_loop :: "ustr \<Rightarrow> rx list \<Rightarrow> py_error + rat option" where
  "amount_loop text_cleaned [] = Inr None"
| "amount_loop text_cleaned (pattern # patterns) =
     (case search pattern text_cleaned of
        None \<Rightarrow> amount_loop text_cleaned patterns
      | Some m \<Rightarrow>
          (case group text_cleaned m 1 of
             None \<Rightarrow> Inl AttributeError
           | Some g \<Rightarrow>
               (case py_float (replace_commas g) of
                  None \<Rightarrow> amount_loop text_cleaned patterns
                | Some amount \<Rightarrow>
                    if 0 < amount then Inr (Some amount)
                    else amount_loop text_cleaned patterns)))"

definition parse_amount :: "'d runtime \<Rightarrow> ustr \<Rightarrow> py_error + rat option" where
  "parse_amount U text = amount_loop (str_lower U text) amount_patterns"

subsection \<open>\<open>parse_date\<close>\<close>

definition date_patterns :: "'d runtime \<Rightarrow> rx list" where
  "date_patterns U =
     [seqs [Grp 1 (Rep (is_digit U) 1 (Some 2) True), Rep is_space 1 None True,
            Grp 2 (Rep is_az 3 (Some 9) True)],
      seqs [Grp 1 (Rep is_az 3 (Some 9) True), Rep is_space 1 None True,
            Grp 2 (Rep (is_digit U) 1 (Some 2) True)],
      seqs [Grp 1 (Rep (is_digit U) 4 (Some 4) True), chr CHR ''-'',
            Grp 2 (Rep (is_digit U) 1 (Some 2) True), chr CHR ''-'',
            Grp 3 (Rep (is_digit U) 1 (Some 2) True)],
      seqs [Grp 1 (Rep (is_digit U) 1 (Some 2) True), chr CHR ''/'',
            Grp 2 (Rep (is_digit U) 1 (Some 2) True), chr CHR ''/'',
            Grp 3 (Rep (is_digit U) 4 (Some 4) True)]]"

definition date_formats :: "ustr list" where
  "date_formats = map str [''%d %B'', ''%d %b'', ''%B %d'', ''%b %d'', ''%Y-%m-%d'', ''%d/%m/%Y'']"

text \<open>
  The inner loop over the formats. \<open>Returned d\<close>: the function returns \<open>d\<close>;
  \<open>ValueError\<close>: every format was refused (\<open>except ValueError: continue\<close>);
  \<open>OtherError\<close>: another exception left the loop (\<open>except Exception\<close>).
\<close>

fun format_loop :: "'d runtime \<Rightarrow> ustr \<Rightarrow> ustr list \<Rightarrow> 'd outcome" where
  "format_loop U matched_str [] = ValueError"
| "format_loop U matched_str (fmt # fmts) =
     (case strptime U matched_str fmt of
        ValueError \<Rightarrow> format_loop U matched_str fmts
      | OtherError \<Rightarrow> OtherError
      | Returned parsed_date \<Rightarrow>
          if year U parsed_date = 1900
          then (case replace_year U parsed_date (year U (now U)) of
                  ValueError \<Rightarrow> format_loop U matched_str fmts
                | OtherError \<Rightarrow> OtherError
                | Returned d \<Rightarrow> Returned d)
          else Returned parsed_date)"

fun date_pattern_loop :: "'d runtime \<Rightarrow> ustr \<Rightarrow> rx list \<Rightarrow> 'd option" where
  "date_pattern_loop U text_lower [] = None"
| "date_pattern_loop U text_lower (pattern # patterns) =
     (case search pattern text_lower of
        None \<Rightarrow> date_pattern_loop U text_lower patterns
      | Some (b, e, g) \<Rightarrow>
          (case format_loop U (slice text_lower b e) date_formats of
             Returned d \<Rightarrow> Some d
           | ValueError \<Rightarrow> date_pattern_loop U text_lower patterns
           | OtherError \<Rightarrow> date_pattern_loop U text_lower patterns))"

definition parse_date :: "'d runtime \<Rightarrow> ustr \<Rightarrow> 'd option" where
  "parse_date U text =
     (let text_lower = str_lower U text
      in case List.find (\<lambda>(keyword, offset_days). sublist keyword text_lower) DATE_KEYWORDS of
           Some (keyword, offset_days) \<Rightarrow> Some (plus_days U (now U) offset_days)
         | None \<Rightarrow> date_pattern_loop U text_lower (date_patterns U))"

subsection \<open>\<open>detect_type\<close>\<close>

definition detect_type :: "'d runtime \<Rightarrow> ustr \<Rightarrow> ustr" where
  "detect_type U text =
     (let text_lower = str_lower U text
      in if list_ex (\<lambda>keyword. sublist keyword text_lower) (list_income U) then str ''INCOME''
         else if list_ex (\<lambda>keyword. sublist keyword text_lower) (list_expense U)
           then str ''EXPENSE''
         else str ''EXPENSE'')"

subsection \<open>\<open>extract_category_hint\<close>\<close>

text \<open>\<open>[a-z\s&]\<close>, and the lazy capture \<open>([a-z\s&]+?)\<close>.\<close>

definition is_hint_char :: "cp \<Rightarrow> bool" where
  "is_hint_char c = (is_az c \<or> is_space c \<or> c = 38)"

definition hint_words :: rx where
  "hint_words = Grp 1 (Rep is_hint_char 1 None False)"

definition stop_at :: "string list \<Rightarrow> rx" where
  "stop_at ws = Alt (Seq (Rep is_space 1 None True) (alts (map lit ws))) Eos"

definition hint_patterns :: "rx list" where
  "hint_patterns =
     [seqs [lit ''for'', Rep is_space 1 None True,
            opt (Seq (chr CHR ''a'') (Rep is_space 1 None True)), hint_words,
            stop_at [''today'', ''yesterday'', ''tomorrow'', ''on'', ''at'']],
      seqs [lit ''on'', Rep is_space 1 None True, hint_words,
            stop_at [''today'', ''yesterday'', ''tomorrow'']],
      seqs [alts (map lit [''at'', ''in'']), Rep is_space 1 None True, hint_words,
            stop_at [''today'', ''yesterday'', ''tomorrow'']],
      seqs [alts (map lit [''bought'', ''spent'', ''paid'']), Rep is_space 1 None True,
            opt (alts (map lit [''a'', ''an''])), Rep is_space 1 None True, hint_words,
            stop_at [''for'', ''on'', ''at'']]]"

fun hint_loop :: "ustr \<Rightarrow> rx list \<Rightarrow> py_error + ustr option" where
  "hint_loop text_lower [] = Inr None"
| "hint_loop text_lower (pattern # patterns) =
     (case search pattern text_lower of
        None \<Rightarrow> hint_loop text_lower patterns
      | Some m \<Rightarrow>
          (case group text_lower m 1 of
             None \<Rightarrow> Inl AttributeError
           | Some g \<Rightarrow>
               (let hint = strip g
                in if hint \<noteq> [] \<and> 1 < length hint then Inr (Some hint)
                   else hint_loop text_lower patterns)))"

definition extract_category_hint :: "'d runtime \<Rightarrow> ustr \<Rightarrow> py_error + ustr option" where
  "extract_category_hint U text = hint_loop (str_lower U text) hint_patterns"

subsection \<open>\<open>extract_description\<close>\<close>

text \<open>\<open>rf'\b{keyword}\b'\<close> with \<open>re.IGNORECASE\<close>, and \<open>\b(for|on|at|in|to|from)\b\<close>.\<close>

definition keyword_pattern :: "'d runtime \<Rightarrow> ustr \<Rightarrow> rx" where
  "keyword_pattern U keyword = seqs [WordB (is_word U), lit_ci U keyword, WordB (is_word U)]"

definition preposition_pattern :: "'d runtime \<Rightarrow> rx" where
  "preposition_pattern U =
     seqs [WordB (is_word U),
           Grp 1 (alts (map (\<lambda>w. lit_ci U (str w)) [''for'', ''on'', ''at'', ''in'', ''to'', ''from''])),
           WordB (is_word U)]"

definition month_pattern :: "'d runtime \<Rightarrow> rx" where
  "month_pattern U =
     seqs [Rep (is_digit U) 1 (Some 2) True, Rep is_space 1 None True,
           alts (map lit [''Jan'', ''Feb'', ''Mar'', ''Apr'', ''May'', ''Jun'',
                          ''Jul'', ''Aug'', ''Sep'', ''Oct'', ''Nov'', ''Dec''])]"

text \<open>
  The text before the fall-backs: amounts, dates, keywords and prepositions removed,
  white space collapsed and trimmed.
\<close>

definition cleaned :: "'d runtime \<Rightarrow> ustr \<Rightarrow> ustr" where
  "cleaned U text =
     (let description = text;
          description = re_sub (seqs [Cls is_currency, Rep is_space 0 None True, number]) []
                          description;
          description = re_sub number [] description;
          description = re_sub (alts (map lit [''today'', ''yesterday'', ''tomorrow'', ''now'',
                                               ''morning'', ''night''])) [] description;
          description = re_sub (month_pattern U) [] description;
          description = foldl (\<lambda>description keyword.
                                 re_sub (keyword_pattern U keyword) [] description)
                          description (list_expense U @ list_income U);
          description = re_sub (preposition_pattern U) [] description
      in strip (re_sub (Rep is_space 1 None True) (str '' '') description))"

definition extract_description :: "'d runtime \<Rightarrow> ustr \<Rightarrow> ustr option \<Rightarrow> ustr" where
  "extract_description U text category_hint =
     (let description = cleaned U text;
          description =
            (case category_hint of
               None \<Rightarrow> description
             | Some hint \<Rightarrow> if description = [] \<and> hint \<noteq> [] then hint else description)
      in if description = [] then str ''Transaction'' else description)"

subsection \<open>\<open>parse\<close>\<close>

text \<open>\<open>if amount:\<close> on a \<open>float\<close> or \<open>None\<close>, \<open>if category_hint:\<close> on a \<open>str\<close> or \<open>None\<close>.\<close>

definition truthy_float :: "rat option \<Rightarrow> bool" where
  "truthy_float a = (case a of None \<Rightarrow> False | Some x \<Rightarrow> x \<noteq> 0)"

definition truthy_str :: "ustr option \<Rightarrow> bool" where
  "truthy_str a = (case a of None \<Rightarrow> False | Some x \<Rightarrow> x \<noteq> [])"

text \<open>
  The confidence is a Python \<open>float\<close>, modelled by a rational number: the sums are
  exact here, where the doubles carry a rounding error below \<open>2e-16\<close>.
\<close>

definition score :: "rat option \<Rightarrow> ustr option \<Rightarrow> 'd option \<Rightarrow> ustr \<Rightarrow> rat" where
  "score amount category_hint transaction_date description =
     (let confidence = 0;
          confidence = (if truthy_float amount then confidence + 4 / 10 else confidence);
          confidence = (if truthy_str category_hint then confidence + 3 / 10 else confidence);
          confidence = (if transaction_date \<noteq> None then confidence + 2 / 10 else confidence);
          confidence = (if description \<noteq> [] \<and> description \<noteq> str ''Transaction''
                        then confidence + 1 / 10 else confidence)
      in confidence)"

record parsed_transaction =
  action :: ustr
  original_input :: ustr
  amount :: "rat option"
  category_hint :: "ustr option"
  type :: ustr
  description :: ustr
  transaction_date :: "ustr option"
  payment_method :: "ustr option"
  confidence :: rat
  clarification_needed :: bool

text \<open>
  The local variables of \<open>parse\<close> carry a prime: their plain names are the keys of the
  result.
\<close>

definition parse :: "'d runtime \<Rightarrow> ustr \<Rightarrow> py_error + parsed_transaction" where
  "parse U text =
     (case parse_amount U text of
        Inl err \<Rightarrow> Inl err
      | Inr amount' \<Rightarrow>
          (let transaction_date' = parse_date U text;
               transaction_type = detect_type U text
           in case extract_category_hint U text of
                Inl err \<Rightarrow> Inl err
              | Inr category_hint' \<Rightarrow>
                  (let description' = extract_description U text category_hint';
                       confidence' = score amount' category_hint' transaction_date' description'
                   in Inr \<lparr> action = str ''CREATE'',
                             original_input = text,
                             amount = amount',
                             category_hint = category_hint',
                             type = transaction_type,
                             description = description',
                             transaction_date = map_option (isoformat U) transaction_date',
                             payment_method = None,
                             confidence = min confidence' 1,
                             clarification_needed =
                               (if truthy_float amount' then confidence' < 5 / 10 else True) \<rparr>)))"

section \<open>Batch processing\<close>




section \<open>A runtime for the examples\<close>

text \<open>
  The examples below are ASCII text and currency signs, without a date in one of the
  four absolute forms. On such text no table of the runtime beyond ASCII is read and
  \<open>strptime\<close> is not called, so the runtime of the examples may answer anything
  there. It counts days from an epoch and enumerates the keyword sets in the order of
  their literals.
\<close>

definition example_runtime :: "int runtime" where
  "example_runtime =
     \<lparr> uni_lower = (\<lambda>pre c post. [c]),
       uni_isdecimal = (\<lambda>c. False),
       uni_isalnum = (\<lambda>c. False),
       uni_ignorecase = (\<lambda>p c. False),
       list_expense = map str
         [''spent'', ''paid'', ''bought'', ''purchased'', ''charged'', ''cost'',
          ''expense'', ''spent money on'', ''spent on'', ''paid for'', ''add expense'',
          ''debit'', ''out'', ''eating'', ''eat'', ''ate'', ''delivery''],
       list_income = map str
         [''earned'', ''received'', ''got'', ''income'', ''salary'', ''bonus'',
          ''refund'', ''credited'', ''credit'', ''earning'', ''earn'', ''payment received'',
          ''transferred in'', ''deposit'', ''deposited'', ''added'', ''received money''],
       now = 0,
       plus_days = (\<lambda>d n. d + n),
       strptime = (\<lambda>s fmt. ValueError),
       year = (\<lambda>d. 1970),
       replace_year = (\<lambda>d y. Returned d),
       isoformat = (\<lambda>d. []) \<rparr>"

section \<open>Properties\<close>

subsection \<open>No call of the parser raises\<close>

text \<open>
  \<open>binds n r\<close>: the group \<open>n\<close> takes part in every match of \<open>r\<close>, since it stands
  outside every alternative.
\<close>

fun binds :: "nat \<Rightarrow> rx \<Rightarrow> bool" where
  "binds n (Seq a b) = (binds n a \<or> binds n b)"
| "binds n (Alt a b) = (binds n a \<and> binds n b)"
| "binds n (Grp m a) = (n = m \<or> binds n a)"
| "binds n r = False"

lemma rmatch_keys_mono:
  "(e, g') \<in> set (rmatch r s (i, g)) \<Longrightarrow> n \<in> fst ` set g \<Longrightarrow> n \<in> fst ` set g'"
proof (induction r arbitrary: i g e g')
  case (Seq a b)
  from Seq.prems(1) obtain j h where
    1: "(j, h) \<in> set (rmatch a s (i, g))" and 2: "(e, g') \<in> set (rmatch b s (j, h))"
    by auto
  from Seq.IH(1)[OF 1 Seq.prems(2)] Seq.IH(2)[OF 2] show ?case by simp
next
  case (Rep p lo hi greedy)
  then show ?case by (auto simp: Let_def split: if_splits)
next
  case (Alt a b)
  from Alt.prems(1) have "(e, g') \<in> set (rmatch a s (i, g)) \<or> (e, g') \<in> set (rmatch b s (i, g))"
    by simp
  with Alt.IH(1)[OF _ Alt.prems(2)] Alt.IH(2)[OF _ Alt.prems(2)] show ?case by blast
next
  case (Grp m a)
  from Grp.prems(1) obtain h where h: "(e, h) \<in> set (rmatch a s (i, g))" "g' = (m, i, e) # h"
    by auto
  from Grp.IH[OF h(1) Grp.prems(2)] h(2) show ?case by simp
qed (simp_all split: if_splits)

lemma binds_keys:
  "binds n r \<Longrightarrow> (e, g') \<in> set (rmatch r s (i, g)) \<Longrightarrow> n \<in> fst ` set g'"
proof (induction r arbitrary: i g e g')
  case (Seq a b)
  from Seq.prems(2) obtain j h where
    1: "(j, h) \<in> set (rmatch a s (i, g))" and 2: "(e, g') \<in> set (rmatch b s (j, h))"
    by auto
  show ?case
  proof (cases "binds n a")
    case True
    from Seq.IH(1)[OF True 1] rmatch_keys_mono[OF 2] show ?thesis by simp
  next
    case False
    with Seq.prems(1) have "binds n b" by simp
    from Seq.IH(2)[OF this 2] show ?thesis .
  qed
next
  case (Alt a b)
  from Alt.prems have ab: "binds n a" "binds n b"
    and "(e, g') \<in> set (rmatch a s (i, g)) \<or> (e, g') \<in> set (rmatch b s (i, g))"
    by simp_all
  with Alt.IH(1)[OF ab(1)] Alt.IH(2)[OF ab(2)] show ?case by blast
next
  case (Grp m a)
  from Grp.prems(2) obtain h where h: "(e, h) \<in> set (rmatch a s (i, g))" "g' = (m, i, e) # h"
    by auto
  show ?case
  proof (cases "n = m")
    case True
    with h(2) show ?thesis by simp
  next
    case False
    with Grp.prems(1) have "binds n a" by simp
    from Grp.IH[OF this h(1)] h(2) show ?thesis by simp
  qed
qed simp_all

lemma first_match_mem:
  "first_match r s adv is = Some (b, e, g) \<Longrightarrow> (e, g) \<in> set (rmatch r s (b, []))"
proof (induction "is" arbitrary: adv)
  case Nil
  then show ?case by simp
next
  case (Cons i "is")
  show ?case
  proof (cases "match_at r s i adv")
    case None
    with Cons show ?thesis by simp
  next
    case (Some m)
    with Cons.prems have "m = (e, g)" "b = i" by simp_all
    with Some match_at_Some(1)[of r s i adv e g] show ?thesis by simp
  qed
qed

lemma search_binds_group:
  assumes "search p t = Some m" and "binds n p" and "0 < n"
  shows "\<exists>w. group t m n = Some w"
proof -
  obtain b e g where m: "m = (b, e, g)" by (cases m) auto
  from assms(1) m have "first_match p t False [0..<Suc (length t)] = Some (b, e, g)"
    by (simp add: search_def search_from_def)
  from first_match_mem[OF this] binds_keys[OF assms(2)] have "n \<in> fst ` set g" by blast
  then have "map_of g n \<noteq> None" by (simp add: map_of_eq_None_iff)
  with m assms(3) show ?thesis by (auto simp: group_def)
qed

lemma amount_loop_total:
  "\<forall>p \<in> set ps. binds 1 p \<Longrightarrow> \<exists>a. amount_loop t ps = Inr a"
proof (induction ps)
  case Nil
  then show ?case by simp
next
  case (Cons p ps)
  then obtain a where IH: "amount_loop t ps = Inr a" by auto
  show ?case
  proof (cases "search p t")
    case None
    with IH show ?thesis by simp
  next
    case (Some m)
    from Cons.prems have "binds 1 p" by simp
    from search_binds_group[OF Some this] obtain w where w: "group t m 1 = Some w" by auto
    with Some IH show ?thesis by (simp split: option.splits)
  qed
qed

lemma amount_loop_positive:
  "amount_loop t ps = Inr (Some a) \<Longrightarrow> 0 < a"
  by (induction ps) (auto split: option.splits if_splits)

lemma hint_loop_total:
  "\<forall>p \<in> set ps. binds 1 p \<Longrightarrow> \<exists>a. hint_loop t ps = Inr a"
proof (induction ps)
  case Nil
  then show ?case by simp
next
  case (Cons p ps)
  then obtain a where IH: "hint_loop t ps = Inr a" by auto
  show ?case
  proof (cases "search p t")
    case None
    with IH show ?thesis by simp
  next
    case (Some m)
    from Cons.prems have "binds 1 p" by simp
    from search_binds_group[OF Some this] obtain w where w: "group t m 1 = Some w" by auto
    with Some IH show ?thesis by (simp add: Let_def)
  qed
qed

lemma hint_loop_nonempty:
  "hint_loop t ps = Inr (Some h) \<Longrightarrow> h \<noteq> [] \<and> 1 < length h"
  by (induction ps) (auto simp: Let_def split: option.splits if_splits)

lemma binds_seqs: "binds n (seqs rs) = (\<exists>r \<in> set rs. binds n r)"
  by (induction rs) (simp_all add: seqs_def)

lemma amount_patterns_bind: "\<forall>p \<in> set amount_patterns. binds 1 p"
  by (simp add: amount_patterns_def binds_seqs)

lemma hint_patterns_bind: "\<forall>p \<in> set hint_patterns. binds 1 p"
  by (simp add: hint_patterns_def binds_seqs hint_words_def)

lemma parse_amount_total: "\<exists>a. parse_amount U t = Inr a"
  unfolding parse_amount_def by (rule amount_loop_total[OF amount_patterns_bind])

lemma extract_category_hint_total: "\<exists>h. extract_category_hint U t = Inr h"
  unfolding extract_category_hint_def by (rule hint_loop_total[OF hint_patterns_bind])


subsection \<open>The record that \<open>parse\<close> returns\<close>

lemma parse_amount_positive: "parse_amount U t = Inr (Some a) \<Longrightarrow> 0 < a"
  unfolding parse_amount_def by (rule amount_loop_positive)

lemma extract_category_hint_nonempty:
  "extract_category_hint U t = Inr (Some h) \<Longrightarrow> h \<noteq> [] \<and> 1 < length h"
  unfolding extract_category_hint_def by (rule hint_loop_nonempty)

lemma str_Transaction_nonempty: "str ''Transaction'' \<noteq> []"
  by (simp add: str_def)

lemma extract_description_nonempty: "extract_description U t h \<noteq> []"
  by (auto simp: extract_description_def Let_def str_Transaction_nonempty split: option.splits)

text \<open>\<open>assemble U t a h\<close>: the record built from the amount \<open>a\<close> and the hint \<open>h\<close>.\<close>

definition assemble :: "'d runtime \<Rightarrow> ustr \<Rightarrow> rat option \<Rightarrow> ustr option \<Rightarrow> parsed_transaction" where
  "assemble U t a h =
     \<lparr> action = str ''CREATE'',
       original_input = t,
       amount = a,
       category_hint = h,
       type = detect_type U t,
       description = extract_description U t h,
       transaction_date = map_option (isoformat U) (parse_date U t),
       payment_method = None,
       confidence = min (score a h (parse_date U t) (extract_description U t h)) 1,
       clarification_needed =
         (if truthy_float a
          then score a h (parse_date U t) (extract_description U t h) < 5 / 10
          else True) \<rparr>"

lemma parse_assemble:
  "parse_amount U t = Inr a \<Longrightarrow> extract_category_hint U t = Inr h \<Longrightarrow>
     parse U t = Inr (assemble U t a h)"
  by (simp add: parse_def assemble_def Let_def)

lemma parse_returns:
  obtains a h where "parse_amount U t = Inr a" and "extract_category_hint U t = Inr h"
    and "parse U t = Inr (assemble U t a h)"
proof -
  obtain a where a: "parse_amount U t = Inr a" using parse_amount_total by blast
  obtain h where h: "extract_category_hint U t = Inr h"
    using extract_category_hint_total by blast
  from parse_assemble[OF a h] a h that show thesis by blast
qed

lemma truthy_amount: "parse_amount U t = Inr a \<Longrightarrow> truthy_float a = (a \<noteq> None)"
  using parse_amount_positive[of U t] by (cases a) (auto simp: truthy_float_def)


text \<open>
  C1. For every input the parser returns a record; its \<open>clarification_needed\<close> is true
  when \<open>amount\<close> is absent, and when \<open>amount\<close> is present it is true exactly when
  the confidence is below 0.5.
\<close>

theorem clarification_flag:
  "\<exists>r. parse U t = Inr r
     \<and> (amount r = None \<longrightarrow> clarification_needed r)
     \<and> (amount r \<noteq> None \<longrightarrow> clarification_needed r = (confidence r < 1 / 2))"
proof -
  obtain a h where a: "parse_amount U t = Inr a"
    and r: "parse U t = Inr (assemble U t a h)"
    by (rule parse_returns)
  show ?thesis
    unfolding r using truthy_amount[OF a] by (simp add: assemble_def min_def)
qed


text \<open>
  C9. The description of the returned record is never empty: it is the cleaned text
  when something is left of it, else the category hint when there is one, else the
  placeholder \<open>Transaction\<close>.
\<close>

theorem description_fallback:
  "\<exists>r. parse U t = Inr r
     \<and> description r \<noteq> []
     \<and> description r =
         (if cleaned U t \<noteq> [] then cleaned U t
          else case category_hint r of Some hint \<Rightarrow> hint | None \<Rightarrow> str ''Transaction'')"
proof -
  obtain a h where h: "extract_category_hint U t = Inr h"
    and r: "parse U t = Inr (assemble U t a h)"
    by (rule parse_returns)
  have "extract_description U t h =
      (if cleaned U t \<noteq> [] then cleaned U t
       else case h of Some hint \<Rightarrow> hint | None \<Rightarrow> str ''Transaction'')"
  proof (cases h)
    case None
    then show ?thesis by (simp add: extract_description_def Let_def)
  next
    case (Some hint)
    with extract_category_hint_nonempty[of U t hint] h have "hint \<noteq> []" by simp
    with Some show ?thesis by (simp add: extract_description_def Let_def)
  qed
  with extract_description_nonempty[of U t h] show ?thesis
    unfolding r by (simp add: assemble_def)
qed

subsection \<open>The clock\<close>

lemma lower_from_now: "lower_from (U\<lparr>now := n\<rparr>) pre s = lower_from U pre s"
  by (induction s arbitrary: pre) simp_all

lemma str_lower_now: "str_lower (U\<lparr>now := n\<rparr>) s = str_lower U s"
  by (simp add: str_lower_def lower_from_now)

text \<open>
  C8. The returned record keeps the input verbatim in \<open>original_input\<close>, and parsing
  that field again, at whatever time \<open>n\<close> the clock then shows, gives the same
  \<open>amount\<close>, \<open>type\<close> and \<open>category_hint\<close>.
\<close>

theorem reparse_original_input:
  "\<exists>r r'. parse U t = Inr r \<and> original_input r = t
     \<and> parse (U\<lparr>now := n\<rparr>) (original_input r) = Inr r'
     \<and> amount r' = amount r \<and> type r' = type r \<and> category_hint r' = category_hint r"
proof -
  obtain a h where a: "parse_amount U t = Inr a" and h: "extract_category_hint U t = Inr h"
    and r: "parse U t = Inr (assemble U t a h)"
    by (rule parse_returns)
  have a': "parse_amount (U\<lparr>now := n\<rparr>) t = Inr a"
    using a by (simp add: parse_amount_def str_lower_now)
  have h': "extract_category_hint (U\<lparr>now := n\<rparr>) t = Inr h"
    using h by (simp add: extract_category_hint_def str_lower_now)
  have ty: "detect_type (U\<lparr>now := n\<rparr>) t = detect_type U t"
    by (simp add: detect_type_def str_lower_now Let_def)
  from parse_assemble[OF a' h'] r ty show ?thesis
    by (simp add: assemble_def)
qed


subsection \<open>The empty input\<close>

lemma str_lower_Nil: "str_lower U [] = []"
  by (simp add: str_lower_def)

lemma re_sub_Nil: "rmatch r [] (0, []) = [] \<Longrightarrow> re_sub r x [] = []"
  by (simp add: re_sub_def search_from_def match_at_def)

lemma keywords_Nil:
  "foldl (\<lambda>description keyword. re_sub (keyword_pattern U keyword) [] description) [] ks = []"
proof (induction ks)
  case Nil
  show ?case by simp
next
  case (Cons k ks)
  have "re_sub (keyword_pattern U k) [] [] = []"
    by (rule re_sub_Nil) (simp add: keyword_pattern_def seqs_def)
  with Cons show ?case by simp
qed

lemma cleaned_Nil: "cleaned U [] = []"
proof -
  have 1: "re_sub (seqs [Cls is_currency, Rep is_space 0 None True, number]) [] [] = []"
    by (rule re_sub_Nil) (simp add: seqs_def)
  have 2: "re_sub number [] [] = []"
    by (rule re_sub_Nil) (simp add: number_def Let_def)
  have 3: "re_sub (alts (map lit [''today'', ''yesterday'', ''tomorrow'', ''now'',
                                  ''morning'', ''night''])) [] [] = []"
    by (rule re_sub_Nil) (simp add: lit_def chr_def)
  have 4: "re_sub (month_pattern U) [] [] = []"
    by (rule re_sub_Nil) (simp add: month_pattern_def seqs_def Let_def)
  have 5: "re_sub (preposition_pattern U) [] [] = []"
    by (rule re_sub_Nil) (simp add: preposition_pattern_def seqs_def)
  have 6: "re_sub (Rep is_space 1 None True) (str '' '') [] = []"
    by (rule re_sub_Nil) (simp add: Let_def)
  show ?thesis
    unfolding cleaned_def Let_def 1 2 3 4 foldl_append keywords_Nil 5 6
    by (simp add: strip_def)
qed

lemma parse_amount_Nil: "parse_amount U [] = Inr None"
  unfolding parse_amount_def str_lower_Nil by code_simp

lemma extract_category_hint_Nil: "extract_category_hint U [] = Inr None"
  unfolding extract_category_hint_def str_lower_Nil by code_simp

text \<open>
  C4. The parser returns a record for every input and never raises. On the empty input
  the amount is absent, \<open>clarification_needed\<close> is true and the description is the
  placeholder \<open>Transaction\<close>.
\<close>

theorem parse_never_raises:
  "(\<exists>r. parse U t = Inr r)
   \<and> (\<exists>r. parse U [] = Inr r \<and> amount r = None \<and> clarification_needed r
          \<and> description r = str ''Transaction'')"
proof
  show "\<exists>r. parse U t = Inr r"
    using parse_returns[of U t] by blast
next
  have "parse U [] = Inr (assemble U [] None None)"
    by (rule parse_assemble[OF parse_amount_Nil extract_category_hint_Nil])
  then show "\<exists>r. parse U [] = Inr r \<and> amount r = None \<and> clarification_needed r
      \<and> description r = str ''Transaction''"
    by (simp add: assemble_def truthy_float_def extract_description_def cleaned_Nil)
qed

subsection \<open>Examples\<close>

lemma amount_5_tea: "parse_amount example_runtime (str ''$5 tea'') = Inr (Some 5)"
  by code_simp

lemma parse_5_tea:
  obtains h where "parse example_runtime (str ''$5 tea'') =
    Inr (assemble example_runtime (str ''$5 tea'') (Some 5) h)"
  using parse_assemble[OF amount_5_tea] extract_category_hint_total by blast

theorem parse_never_raises_witness:
  "(\<exists>r. parse example_runtime (str ''$5 tea'') = Inr r)
   \<and> (\<exists>r. parse example_runtime [] = Inr r \<and> amount r = None \<and> clarification_needed r
          \<and> description r = str ''Transaction'')"
  by (rule parse_never_raises)

theorem clarification_flag_witness:
  "\<exists>r. parse example_runtime (str ''$5 tea'') = Inr r \<and> amount r = Some 5
     \<and> clarification_needed r = (confidence r < 1 / 2)"
proof -
  obtain h where p: "parse example_runtime (str ''$5 tea'') =
      Inr (assemble example_runtime (str ''$5 tea'') (Some 5) h)"
    by (rule parse_5_tea)
  from clarification_flag[of example_runtime "str ''$5 tea''"] p show ?thesis
    by (auto simp: assemble_def)
qed


theorem description_fallback_witness:
  "\<exists>r. parse example_runtime [] = Inr r \<and> description r = str ''Transaction''"
  using description_fallback[of example_runtime "[]"]
    parse_assemble[OF parse_amount_Nil extract_category_hint_Nil, of example_runtime]
  by (auto simp: cleaned_Nil assemble_def)

theorem reparse_original_input_witness:
  "\<exists>r r'. parse example_runtime (str ''$5 tea'') = Inr r
     \<and> original_input r = str ''$5 tea''
     \<and> parse (example_runtime\<lparr>now := 7\<rparr>) (original_input r) = Inr r'
     \<and> amount r' = amount r \<and> amount r = Some 5"
proof -
  obtain h where p: "parse example_runtime (str ''$5 tea'') =
      Inr (assemble example_runtime (str ''$5 tea'') (Some 5) h)"
    by (rule parse_5_tea)
  from reparse_original_input[of example_runtime "str ''$5 tea''" 7] p show ?thesis
    by (auto simp: assemble_def)
qed


subsection \<open>The type classifier\<close>

text \<open>
  C5. The type classifier returns \<open>INCOME\<close> or \<open>EXPENSE\<close>: \<open>INCOME\<close> when an
  income keyword occurs in the lower-cased text, whether or not an expense keyword
  occurs too; otherwise \<open>EXPENSE\<close>, with an expense keyword or without one. The order
  in which the process enumerates the two sets does not matter.
\<close>

theorem detect_type_income_first:
  assumes "set (list_income U) = INCOME_KEYWORDS"
    and "set (list_expense U) = EXPENSE_KEYWORDS"
  shows "detect_type U t =
           (if \<exists>k \<in> INCOME_KEYWORDS. sublist k (str_lower U t) then str ''INCOME''
            else if \<exists>k \<in> EXPENSE_KEYWORDS. sublist k (str_lower U t) then str ''EXPENSE''
            else str ''EXPENSE'')
         \<and> detect_type U t \<in> {str ''INCOME'', str ''EXPENSE''}"
  using assms by (auto simp: detect_type_def Let_def list_ex_iff)

lemma example_runtime_income: "set (list_income example_runtime) = INCOME_KEYWORDS"
  by (simp add: example_runtime_def INCOME_KEYWORDS_def)

lemma example_runtime_expense: "set (list_expense example_runtime) = EXPENSE_KEYWORDS"
  by (auto simp: example_runtime_def EXPENSE_KEYWORDS_def)

lemma bonus_keyword: "str ''bonus'' \<in> INCOME_KEYWORDS"
  by (simp add: INCOME_KEYWORDS_def)

lemma bonus_occurs:
  "sublist (str ''bonus'') (str_lower example_runtime (str ''spent my BONUS''))"
  by code_simp

theorem detect_type_income_first_witness:
  "set (list_income example_runtime) = INCOME_KEYWORDS
   \<and> set (list_expense example_runtime) = EXPENSE_KEYWORDS
   \<and> detect_type example_runtime (str ''spent my BONUS'') = str ''INCOME''"
  using detect_type_income_first[OF example_runtime_income example_runtime_expense,
      of "str ''spent my BONUS''"]
    bonus_keyword bonus_occurs example_runtime_income example_runtime_expense
  by auto

subsection \<open>The date extractor\<close>

text \<open>
  C6. When the lower-cased text contains a relative-day keyword as a substring, word
  boundaries or not, the date extractor returns the clock's time plus the offset of
  the first keyword of the table, in the order of the table, that occurs. The result
  does not depend on the text beyond the keywords, nor on \<open>strptime\<close>: the absolute
  forms are not tried.
\<close>

theorem relative_day_keyword:
  assumes "\<exists>k \<in> fst ` set DATE_KEYWORDS. sublist k (str_lower U t)"
  shows "\<exists>i < length DATE_KEYWORDS.
           sublist (fst (DATE_KEYWORDS ! i)) (str_lower U t)
         \<and> (\<forall>j < i. \<not> sublist (fst (DATE_KEYWORDS ! j)) (str_lower U t))
         \<and> parse_date U t = Some (plus_days U (now U) (snd (DATE_KEYWORDS ! i)))"
proof -
  let ?P = "\<lambda>(keyword, offset_days :: int). sublist keyword (str_lower U t)"
  from assms have "List.find ?P DATE_KEYWORDS \<noteq> None"
    by (auto simp: find_None_iff)
  then obtain k off where f: "List.find ?P DATE_KEYWORDS = Some (k, off)"
    by auto
  then obtain i where i: "i < length DATE_KEYWORDS" "DATE_KEYWORDS ! i = (k, off)"
    "sublist k (str_lower U t)" "\<forall>j < i. \<not> ?P (DATE_KEYWORDS ! j)"
    by (auto simp: find_Some_iff)
  from f have "parse_date U t = Some (plus_days U (now U) off)"
    by (simp add: parse_date_def Let_def)
  with i show ?thesis
    by (intro exI[of _ i]) (auto simp: case_prod_beta)
qed

lemma now_in_know: "sublist (str ''now'') (str_lower example_runtime (str ''know''))"
  by code_simp

lemma parse_date_know: "parse_date example_runtime (str ''know'') = Some 0"
  by code_simp

theorem relative_day_keyword_witness:
  "sublist (str ''now'') (str_lower example_runtime (str ''know''))
   \<and> parse_date example_runtime (str ''know'')
       = Some (plus_days example_runtime (now example_runtime) 0)"
proof -
  have "str ''now'' \<in> fst ` set DATE_KEYWORDS"
    by (simp add: DATE_KEYWORDS_def)
  with now_in_know
  have "\<exists>k \<in> fst ` set DATE_KEYWORDS. sublist k (str_lower example_runtime (str ''know''))"
    by blast
  from relative_day_keyword[OF this] parse_date_know now_in_know show ?thesis
    by (simp add: example_runtime_def)
qed

subsection \<open>Batches\<close>






subsection \<open>The first match of a pattern\<close>









lemma rev_upt_Suc: "lo \<le> m \<Longrightarrow> rev [lo..<Suc m] = m # rev [lo..<m]"
  by simp









subsection \<open>The first amount pattern\<close>

text \<open>
  \<open>fraction rest\<close>: the dot and two digits at the head of \<open>rest\<close> that the optional
  group \<open>(?:\.[0-9]{2})?\<close> takes, or nothing.
\<close>

fun fraction :: "ustr \<Rightarrow> ustr" where
  "fraction (d # x # y # rest) = (if d = 46 \<and> is_09 x \<and> is_09 y then [d, x, y] else [])"
| "fraction rest = []"





























subsection \<open>The digits after the dot\<close>


lemma replace_commas_09: "\<forall>x \<in> set w. is_09 x \<Longrightarrow> replace_commas w = w"
  by (induction w) (auto simp: replace_commas_def is_09_def)




lemma fraction_long:
  assumes "\<forall>x \<in> set fs. is_09 x" and "2 \<le> length fs"
  shows "fraction (46 # fs @ rest) = 46 # take 2 fs"
proof -
  from assms(2) obtain x y fs' where "fs = x # y # fs'"
    by (cases fs; cases "tl fs") auto
  with assms(1) show ?thesis by simp
qed








end
